theory Spec2Isabelle
  imports Complex_Main
begin

section \<open>JavaScript numbers\<close>

text \<open>
  The plugin reads its numeric parameters with \<^verbatim>\<open>Number(...)\<close> and adds them to
  the sprite origin with \<^verbatim>\<open>+=\<close>. Both work on IEEE-754 binary64 values. A number
  is modelled as not-a-number, an infinity, or a finite value held as the exact rational
  it denotes; every operation rounds its exact result to the nearest binary64 value, ties
  to even. Negative zero is identified with zero (\<^verbatim>\<open>==\<close> and truthiness do not tell
  them apart).
\<close>

datatype jsnum = NaN | PosInfinity | NegInfinity | Fin rat

fun ilog2 :: "nat \<Rightarrow> nat" where
  "ilog2 n = (if n < 2 then 0 else Suc (ilog2 (n div 2)))"

declare ilog2.simps [simp del]

definition pow2 :: "int \<Rightarrow> rat" where
  "pow2 k = 2 powi k"

text \<open>The binary exponent of a positive rational: the floor of its logarithm to base 2.\<close>

definition exponent_of :: "rat \<Rightarrow> int" where
  "exponent_of a =
     (let k = int (ilog2 (nat (fst (quotient_of a)))) - int (ilog2 (nat (snd (quotient_of a))))
      in if pow2 k \<le> a then k else k - 1)"

definition round_half_even :: "rat \<Rightarrow> int" where
  "round_half_even m =
     (let f = \<lfloor>m\<rfloor>; r = m - of_int f
      in if r < 1 / 2 then f else if 1 / 2 < r then f + 1 else if even f then f else f + 1)"

text \<open>
  Rounding to binary64: 53 significant bits, least normal exponent -1022 (below it the
  spacing stays at \<open>2 ^ -1074\<close>), overflow to an infinity from \<open>2 ^ 1024\<close> on.
\<close>

definition round_double :: "rat \<Rightarrow> jsnum" where
  "round_double q =
     (if q = 0 then Fin 0
      else
        let a = \<bar>q\<bar>;
            e = max (exponent_of a) (- 1022);
            ulp = pow2 (e - 52);
            v = of_int (round_half_even (a / ulp)) * ulp
        in if pow2 1024 \<le> v then (if 0 < q then PosInfinity else NegInfinity)
           else Fin (if 0 < q then v else - v))"

text \<open>The \<^verbatim>\<open>+\<close> of two numbers.\<close>

fun js_add :: "jsnum \<Rightarrow> jsnum \<Rightarrow> jsnum" where
  "js_add NaN _ = NaN"
| "js_add _ NaN = NaN"
| "js_add PosInfinity NegInfinity = NaN"
| "js_add NegInfinity PosInfinity = NaN"
| "js_add PosInfinity _ = PosInfinity"
| "js_add _ PosInfinity = PosInfinity"
| "js_add NegInfinity _ = NegInfinity"
| "js_add _ NegInfinity = NegInfinity"
| "js_add (Fin a) (Fin b) = round_double (a + b)"

text \<open>The \<^verbatim>\<open>*\<close> of two numbers.\<close>

fun js_mul :: "jsnum \<Rightarrow> jsnum \<Rightarrow> jsnum" where
  "js_mul NaN _ = NaN"
| "js_mul _ NaN = NaN"
| "js_mul (Fin a) (Fin b) = round_double (a * b)"
| "js_mul (Fin a) PosInfinity = (if a = 0 then NaN else if 0 < a then PosInfinity else NegInfinity)"
| "js_mul (Fin a) NegInfinity = (if a = 0 then NaN else if 0 < a then NegInfinity else PosInfinity)"
| "js_mul PosInfinity (Fin b) = (if b = 0 then NaN else if 0 < b then PosInfinity else NegInfinity)"
| "js_mul NegInfinity (Fin b) = (if b = 0 then NaN else if 0 < b then NegInfinity else PosInfinity)"
| "js_mul PosInfinity PosInfinity = PosInfinity"
| "js_mul NegInfinity NegInfinity = PosInfinity"
| "js_mul PosInfinity NegInfinity = NegInfinity"
| "js_mul NegInfinity PosInfinity = NegInfinity"

text \<open>Truthiness of a number: \<^verbatim>\<open>NaN\<close> and zero are falsy.\<close>

fun truthy_num :: "jsnum \<Rightarrow> bool" where
  "truthy_num NaN = False"
| "truthy_num (Fin q) = (q \<noteq> 0)"
| "truthy_num _ = True"

text \<open>\<^verbatim>\<open>a || b\<close> on numbers.\<close>

definition num_or :: "jsnum \<Rightarrow> jsnum \<Rightarrow> jsnum" where
  "num_or a b = (if truthy_num a then a else b)"

section \<open>String to number\<close>

text \<open>
  \<^verbatim>\<open>Number(s)\<close> on a string follows the StringNumericLiteral grammar: surrounding
  white space is dropped, the empty string is 0, a signed decimal literal with optional
  fraction and exponent, \<^verbatim>\<open>Infinity\<close>, or an unsigned binary, octal or hexadecimal
  literal is its value, and anything else is \<^verbatim>\<open>NaN\<close>. Strings are ASCII here.
\<close>

definition isStrWhiteSpaceChar :: "char \<Rightarrow> bool" where
  "isStrWhiteSpaceChar c = ((of_char c :: nat) \<in> {9, 10, 11, 12, 13, 32})"

definition trim :: "string \<Rightarrow> string" where
  "trim s = rev (dropWhile isStrWhiteSpaceChar (rev (dropWhile isStrWhiteSpaceChar s)))"

definition digitValue :: "nat \<Rightarrow> char \<Rightarrow> nat option" where
  "digitValue radix c =
     (let n = (of_char c :: nat);
          d = (if 48 \<le> n \<and> n \<le> 57 then Some (n - 48)
               else if 97 \<le> n \<and> n \<le> 102 then Some (n - 87)
               else if 65 \<le> n \<and> n \<le> 70 then Some (n - 55)
               else None)
      in case d of None \<Rightarrow> None | Some v \<Rightarrow> if v < radix then Some v else None)"

fun digitsValue :: "nat \<Rightarrow> string \<Rightarrow> nat \<Rightarrow> nat option" where
  "digitsValue radix [] acc = Some acc"
| "digitsValue radix (c # cs) acc =
     (case digitValue radix c of
        None \<Rightarrow> None
      | Some d \<Rightarrow> digitsValue radix cs (acc * radix + d))"

text \<open>One or more digits of the radix, and nothing else.\<close>

definition parseDigits :: "nat \<Rightarrow> string \<Rightarrow> nat option" where
  "parseDigits radix s = (if s = [] then None else digitsValue radix s 0)"

definition isDecimalDigit :: "char \<Rightarrow> bool" where
  "isDecimalDigit c = (digitValue 10 c \<noteq> None)"

definition pow10 :: "int \<Rightarrow> rat" where
  "pow10 k = 10 powi k"

text \<open>ExponentPart, or nothing: the power of ten to scale by.\<close>

definition exponentPart :: "string \<Rightarrow> int option" where
  "exponentPart r =
     (case r of
        [] \<Rightarrow> Some 0
      | c # t \<Rightarrow>
          if c = CHR ''e'' \<or> c = CHR ''E'' then
            (case t of
               [] \<Rightarrow> None
             | d # u \<Rightarrow>
                 if d = CHR ''+'' then map_option int (parseDigits 10 u)
                 else if d = CHR ''-'' then map_option (\<lambda>n. - int n) (parseDigits 10 u)
                 else map_option int (parseDigits 10 t))
          else None)"

text \<open>StrUnsignedDecimalLiteral without \<^verbatim>\<open>Infinity\<close>: the exact value denoted.\<close>

definition unsignedDecimal :: "string \<Rightarrow> rat option" where
  "unsignedDecimal s =
     (let ip = takeWhile isDecimalDigit s;
          r1 = dropWhile isDecimalDigit s;
          fp = (case r1 of [] \<Rightarrow> [] | c # t \<Rightarrow> if c = CHR ''.'' then takeWhile isDecimalDigit t else []);
          r2 = (case r1 of [] \<Rightarrow> [] | c # t \<Rightarrow> if c = CHR ''.'' then dropWhile isDecimalDigit t else r1)
      in if ip = [] \<and> fp = [] then None
         else
           (case exponentPart r2 of
              None \<Rightarrow> None
            | Some ex \<Rightarrow>
                Some ((of_nat (the (digitsValue 10 ip 0))
                       + of_nat (the (digitsValue 10 fp 0)) / 10 ^ length fp) * pow10 ex)))"

definition strDecimalLiteral :: "string \<Rightarrow> jsnum" where
  "strDecimalLiteral s =
     (let neg = (case s of [] \<Rightarrow> False | c # _ \<Rightarrow> c = CHR ''-'');
          body = (case s of [] \<Rightarrow> [] | c # t \<Rightarrow> if c = CHR ''+'' \<or> c = CHR ''-'' then t else s)
      in if body = ''Infinity'' then (if neg then NegInfinity else PosInfinity)
         else
           (case unsignedDecimal body of
              None \<Rightarrow> NaN
            | Some q \<Rightarrow> round_double (if neg then - q else q)))"

definition nonDecimalRadix :: "string \<Rightarrow> nat option" where
  "nonDecimalRadix s =
     (case s of
        c # d # _ \<Rightarrow>
          if c = CHR ''0'' then
            (if d = CHR ''x'' \<or> d = CHR ''X'' then Some 16
             else if d = CHR ''o'' \<or> d = CHR ''O'' then Some 8
             else if d = CHR ''b'' \<or> d = CHR ''B'' then Some 2
             else None)
          else None
      | _ \<Rightarrow> None)"

definition StringToNumber :: "string \<Rightarrow> jsnum" where
  "StringToNumber s =
     (let t = trim s
      in if t = [] then Fin 0
         else
           (case nonDecimalRadix t of
              Some radix \<Rightarrow>
                (case parseDigits radix (drop 2 t) of
                   None \<Rightarrow> NaN
                 | Some n \<Rightarrow> round_double (of_nat n))
            | None \<Rightarrow> strDecimalLiteral t))"

text \<open>
  A plugin parameter is a string, or \<^verbatim>\<open>undefined\<close> when the key is missing from the
  parameter object.
\<close>

datatype jsval = Undefined | JString string

fun Number :: "jsval \<Rightarrow> jsnum" where
  "Number Undefined = NaN"
| "Number (JString s) = StringToNumber s"

text \<open>\<^verbatim>\<open>v || ''\<close> on a parameter: the string, or the empty string.\<close>

fun string_or_empty :: "jsval \<Rightarrow> string" where
  "string_or_empty Undefined = []"
| "string_or_empty (JString s) = (if s = [] then [] else s)"

section \<open>Plugin configuration\<close>

type_synonym parameters = "string \<Rightarrow> jsval"

record config =
  backgroundImage :: string
  parallaxHorizontalSpeed :: jsnum
  parallaxVerticalSpeed :: jsnum
  menuMusic :: string
  musicVolume :: jsnum
  musicPitch :: jsnum

text \<open>Lines 65 to 71 of the plugin: the six constants read from the parameter object.\<close>

definition load_config :: "parameters \<Rightarrow> config" where
  "load_config parameters =
     \<lparr> backgroundImage = string_or_empty (parameters ''backgroundImage''),
       parallaxHorizontalSpeed = num_or (Number (parameters ''parallaxHorizontalSpeed'')) (Fin 1),
       parallaxVerticalSpeed = num_or (Number (parameters ''parallaxVerticalSpeed'')) (Fin 0),
       menuMusic = string_or_empty (parameters ''menuMusic''),
       musicVolume = num_or (Number (parameters ''musicVolume'')) (Fin 80),
       musicPitch = num_or (Number (parameters ''musicPitch'')) (Fin 100) \<rparr>"

section \<open>Parallax background of the menu scenes\<close>

text \<open>
  \<^verbatim>\<open>Scene_MenuBase.prototype.createBackground\<close> installs a \<^verbatim>\<open>TilingSprite\<close> when a
  background image is configured, and otherwise calls the engine's own method, which
  installs a plain \<^verbatim>\<open>Sprite\<close>. A new \<^verbatim>\<open>TilingSprite\<close> has origin (0, 0). The
  two arguments of \<open>TilingSprite\<close> are \<^verbatim>\<open>origin.x\<close> and \<^verbatim>\<open>origin.y\<close>.
\<close>

datatype backgroundSprite = TilingSprite jsnum jsnum | Sprite

definition createBackground :: "config \<Rightarrow> backgroundSprite" where
  "createBackground cfg =
     (if backgroundImage cfg \<noteq> [] then TilingSprite (Fin 0) (Fin 0) else Sprite)"

text \<open>\<^verbatim>\<open>Scene_MenuBase.prototype.update\<close>, lines 100 to 106: one tick.\<close>

fun Scene_MenuBase_update :: "config \<Rightarrow> backgroundSprite \<Rightarrow> backgroundSprite" where
  "Scene_MenuBase_update cfg (TilingSprite ox oy) =
     TilingSprite (js_add ox (parallaxHorizontalSpeed cfg)) (js_add oy (parallaxVerticalSpeed cfg))"
| "Scene_MenuBase_update cfg Sprite = Sprite"

section \<open>Menu music\<close>

text \<open>
  The object passed to \<^verbatim>\<open>AudioManager.playBgm\<close> has a name, volume, pitch and pan; the
  object returned by \<^verbatim>\<open>AudioManager.saveBgm\<close> has a playback position as well.
\<close>

record audio =
  name :: string
  volume :: jsnum
  pitch :: jsnum
  pan :: jsnum

record savedAudio = audio +
  pos :: jsnum

text \<open>
  The audio device belongs to the engine. The model records the calls the plugin makes to
  it, in order. \<open>SaveBgm\<close> is the capture, which reads the device and does not change it.
\<close>

datatype audioCall = SaveBgm | StopBgm | PlayBgm audio | ReplayBgm savedAudio

fun changesDevice :: "audioCall \<Rightarrow> bool" where
  "changesDevice SaveBgm = False"
| "changesDevice _ = True"

text \<open>
  What \<^verbatim>\<open>SceneManager._nextScene\<close> is when a scene terminates: \<^verbatim>\<open>null\<close>, or a scene
  named by the most specific of the four classes it is an instance of.
\<close>

datatype scene = Null | Scene_Base | Scene_Map | Scene_MenuBase | Scene_Menu

fun instanceof_Scene_MenuBase :: "scene \<Rightarrow> bool" where
  "instanceof_Scene_MenuBase Scene_MenuBase = True"
| "instanceof_Scene_MenuBase Scene_Menu = True"
| "instanceof_Scene_MenuBase _ = False"

fun instanceof_Scene_Map :: "scene \<Rightarrow> bool" where
  "instanceof_Scene_Map Scene_Map = True"
| "instanceof_Scene_Map _ = False"

text \<open>
  The two variables of the plugin's closure (\<^verbatim>\<open>_currentMapBgm\<close>, where \<open>None\<close> is
  \<^verbatim>\<open>null\<close>, and \<^verbatim>\<open>_menuMusicActive\<close>), together with the calls made to the audio
  device so far.
\<close>

record world =
  currentMapBgm :: "savedAudio option"
  menuMusicActive :: bool
  audioCalls :: "audioCall list"

definition initial_world :: world where
  "initial_world = \<lparr> currentMapBgm = None, menuMusicActive = False, audioCalls = [] \<rparr>"

text \<open>
  \<^verbatim>\<open>Scene_Map.prototype.terminate\<close>, lines 79 to 84. \<open>saved\<close> is what
  \<^verbatim>\<open>AudioManager.saveBgm()\<close> returns if it is called. The wrapped engine methods are not
  part of the plugin; they cannot reach the closure's variables.
\<close>

definition Scene_Map_terminate :: "scene \<Rightarrow> savedAudio option \<Rightarrow> world \<Rightarrow> world" where
  "Scene_Map_terminate nextScene saved w =
     (if instanceof_Scene_MenuBase nextScene
      then w\<lparr> audioCalls := audioCalls w @ [SaveBgm], currentMapBgm := saved \<rparr>
      else w)"

text \<open>The object literal of line 114.\<close>

definition menuBgm :: "config \<Rightarrow> audio" where
  "menuBgm cfg =
     \<lparr> name = menuMusic cfg, volume = musicVolume cfg, pitch = musicPitch cfg, pan = Fin 0 \<rparr>"

text \<open>\<^verbatim>\<open>Scene_Menu.prototype.start\<close>, lines 110 to 117.\<close>

definition Scene_Menu_start :: "config \<Rightarrow> world \<Rightarrow> world" where
  "Scene_Menu_start cfg w =
     (if menuMusic cfg \<noteq> [] \<and> \<not> menuMusicActive w
      then w\<lparr> audioCalls := audioCalls w @ [StopBgm, PlayBgm (menuBgm cfg)],
              menuMusicActive := True \<rparr>
      else w)"

text \<open>The replay of line 124 to 126: nothing when the saved value is \<^verbatim>\<open>null\<close>.\<close>

fun replay :: "savedAudio option \<Rightarrow> audioCall list" where
  "replay None = []"
| "replay (Some b) = [ReplayBgm b]"

text \<open>\<^verbatim>\<open>Scene_MenuBase.prototype.terminate\<close>, lines 120 to 129.\<close>

definition Scene_MenuBase_terminate :: "scene \<Rightarrow> world \<Rightarrow> world" where
  "Scene_MenuBase_terminate nextScene w =
     (if menuMusicActive w \<and> instanceof_Scene_Map nextScene
      then w\<lparr> audioCalls := audioCalls w @ StopBgm # replay (currentMapBgm w),
              menuMusicActive := False \<rparr>
      else w)"

subsection \<open>The hooks as events of the host\<close>

datatype event =
    MapTerminate scene "savedAudio option"
  | MenuStart
  | MenuBaseTerminate scene

fun step :: "config \<Rightarrow> event \<Rightarrow> world \<Rightarrow> world" where
  "step cfg (MapTerminate nextScene saved) w = Scene_Map_terminate nextScene saved w"
| "step cfg MenuStart w = Scene_Menu_start cfg w"
| "step cfg (MenuBaseTerminate nextScene) w = Scene_MenuBase_terminate nextScene w"

fun run :: "config \<Rightarrow> event list \<Rightarrow> world \<Rightarrow> world" where
  "run cfg [] w = w"
| "run cfg (e # es) w = run cfg es (step cfg e w)"

text \<open>
  Events that occur while the player stays inside the menu: the main menu starts (again),
  or a menu scene terminates in favour of another menu scene.
\<close>

fun inMenu :: "event \<Rightarrow> bool" where
  "inMenu MenuStart = True"
| "inMenu (MenuBaseTerminate nextScene) = instanceof_Scene_MenuBase nextScene"
| "inMenu (MapTerminate nextScene saved) = False"

text \<open>
  A menu session: the map terminates in favour of a menu scene, the player moves about
  the menu, and a menu scene terminates in favour of the map.
\<close>

definition session :: "scene \<Rightarrow> savedAudio option \<Rightarrow> event list \<Rightarrow> event list" where
  "session nextScene saved mids =
     MapTerminate nextScene saved # mids @ [MenuBaseTerminate Scene_Map]"

subsection \<open>Example inputs\<close>

text \<open>The parameter object with no key set.\<close>

definition no_parameters :: parameters where
  "no_parameters = (\<lambda>key. Undefined)"

text \<open>A track playing on the map: \<^verbatim>\<open>Field\<close>, 12.5 seconds in.\<close>

definition fieldBgm :: savedAudio where
  "fieldBgm = \<lparr> name = ''Field'', volume = Fin 90, pitch = Fin 100, pan = Fin 0, pos = Fin (25 / 2) \<rparr>"

section \<open>Facts about rounding\<close>

lemma ilog2_bounds: "0 < n \<Longrightarrow> 2 ^ ilog2 n \<le> n \<and> n < 2 ^ Suc (ilog2 n)"
proof (induction n rule: ilog2.induct)
  case (1 n)
  show ?case
  proof (cases "n < 2")
    case True
    with "1.prems" have "n = 1" by simp
    then show ?thesis by (simp add: ilog2.simps)
  next
    case False
    then have pos: "0 < n div 2" by simp
    from "1.IH" [OF False pos]
    have lo: "2 ^ ilog2 (n div 2) \<le> n div 2" and hi: "n div 2 < 2 ^ Suc (ilog2 (n div 2))"
      by simp_all
    have eq: "ilog2 n = Suc (ilog2 (n div 2))"
      using False by (subst ilog2.simps) simp
    from lo have "2 * 2 ^ ilog2 (n div 2) \<le> n" by simp
    moreover from hi have "n < 2 * 2 ^ Suc (ilog2 (n div 2))" by simp
    ultimately show ?thesis by (simp add: eq)
  qed
qed

lemma pow2_pos: "0 < pow2 k"
  by (simp add: pow2_def power_int_def)

lemma pow2_add: "pow2 (a + b) = pow2 a * pow2 b"
  by (simp add: pow2_def power_int_add)

lemma pow2_mono: "a \<le> b \<Longrightarrow> pow2 a \<le> pow2 b"
  by (simp add: pow2_def power_int_increasing)

lemma pow2_nat: "pow2 (int n) = 2 ^ n"
  by (simp add: pow2_def)

lemma floor_rat_numeral: "\<lfloor>numeral a / numeral b :: rat\<rfloor> = numeral a div numeral b"
  by (metis floor_divide_of_int_eq of_int_numeral)

lemma pow2_unique:
  assumes "pow2 e \<le> a" "a < pow2 (e + 1)" "pow2 e' \<le> a" "a < pow2 (e' + 1)"
  shows "e = e'"
proof (rule ccontr)
  assume ne: "e \<noteq> e'"
  show False
  proof (cases "e < e'")
    case True
    then have "pow2 (e + 1) \<le> pow2 e'" by (intro pow2_mono) simp
    with assms show False by simp
  next
    case False
    with ne have "pow2 (e' + 1) \<le> pow2 e" by (intro pow2_mono) simp
    with assms show False by simp
  qed
qed

lemma exponent_of_bounds:
  assumes "0 < a"
  shows "pow2 (exponent_of a) \<le> a \<and> a < pow2 (exponent_of a + 1)"
proof -
  define p where "p = fst (quotient_of a)"
  define q where "q = snd (quotient_of a)"
  have qpos: "0 < q" by (simp add: q_def quotient_of_denom_pos')
  have a_eq: "a = of_int p / of_int q"
    by (metis p_def q_def prod.collapse quotient_of_div)
  have ppos: "0 < p"
    using assms qpos a_eq by (simp add: zero_less_divide_iff)
  define i where "i = ilog2 (nat p)"
  define j where "j = ilog2 (nat q)"
  have pi: "2 ^ i \<le> nat p" "nat p < 2 ^ Suc i"
    using ilog2_bounds [of "nat p"] ppos by (simp_all add: i_def)
  have qj: "2 ^ j \<le> nat q" "nat q < 2 ^ Suc j"
    using ilog2_bounds [of "nat q"] qpos by (simp_all add: j_def)
  have rp: "(2::rat) ^ i \<le> of_int p" "of_int p < (2::rat) ^ Suc i"
  proof -
    have "of_nat (2 ^ i) \<le> (of_nat (nat p) :: rat)" using pi(1) by (simp only: of_nat_le_iff)
    then show "(2::rat) ^ i \<le> of_int p" using ppos by simp
    have "(of_nat (nat p) :: rat) < of_nat (2 ^ Suc i)" using pi(2) by (simp only: of_nat_less_iff)
    then show "of_int p < (2::rat) ^ Suc i" using ppos by simp
  qed
  have rq: "(2::rat) ^ j \<le> of_int q" "of_int q < (2::rat) ^ Suc j"
  proof -
    have "of_nat (2 ^ j) \<le> (of_nat (nat q) :: rat)" using qj(1) by (simp only: of_nat_le_iff)
    then show "(2::rat) ^ j \<le> of_int q" using qpos by simp
    have "(of_nat (nat q) :: rat) < of_nat (2 ^ Suc j)" using qj(2) by (simp only: of_nat_less_iff)
    then show "of_int q < (2::rat) ^ Suc j" using qpos by simp
  qed
  define k where "k = int i - int j"
  have qr: "0 < (of_int q :: rat)" using qpos by simp
  have up: "a < pow2 (k + 1)"
  proof -
    have "k + 1 + int j = int (Suc i)" by (simp add: k_def)
    then have "pow2 (k + 1) * pow2 (int j) = pow2 (int (Suc i))"
      by (simp only: pow2_add [symmetric])
    then have e: "pow2 (k + 1) * 2 ^ j = 2 ^ Suc i" by (simp only: pow2_nat)
    have "of_int p < pow2 (k + 1) * 2 ^ j" using rp(2) e by simp
    also have "\<dots> \<le> pow2 (k + 1) * of_int q"
      using rq(1) pow2_pos [of "k + 1"] by (simp add: mult_left_mono)
    finally show ?thesis using qr by (simp add: a_eq pos_divide_less_eq)
  qed
  have low: "pow2 (k - 1) \<le> a"
  proof -
    have "k - 1 + int (Suc j) = int i" by (simp add: k_def)
    then have "pow2 (k - 1) * pow2 (int (Suc j)) = pow2 (int i)"
      by (simp only: pow2_add [symmetric])
    then have e: "pow2 (k - 1) * 2 ^ Suc j = 2 ^ i" by (simp only: pow2_nat)
    have "pow2 (k - 1) * of_int q \<le> pow2 (k - 1) * 2 ^ Suc j"
      using rq(2) pow2_pos [of "k - 1"] by (simp add: mult_left_mono)
    also have "\<dots> \<le> of_int p" using rp(1) e by simp
    finally show ?thesis using qr by (simp add: a_eq pos_le_divide_eq)
  qed
  have ex: "exponent_of a = (if pow2 k \<le> a then k else k - 1)"
    by (simp add: exponent_of_def Let_def k_def i_def j_def p_def q_def)
  show ?thesis
  proof (cases "pow2 k \<le> a")
    case True
    with up ex show ?thesis by simp
  next
    case False
    with low ex show ?thesis by simp
  qed
qed

lemma exponent_of_eqI:
  assumes "pow2 e \<le> a" "a < pow2 (e + 1)"
  shows "exponent_of a = e"
proof -
  have "0 < a" using assms(1) pow2_pos [of e] by simp
  from exponent_of_bounds [OF this] assms show ?thesis
    by (metis pow2_unique)
qed

lemma round_half_even_of_int: "round_half_even (of_int z) = z"
  by (simp add: round_half_even_def)

lemma round_double_nat:
  assumes "0 < m" "m \<le> 2 ^ 53"
  shows "round_double (of_nat m) = Fin (of_nat m)"
proof -
  define e where "e = ilog2 m"
  have b: "2 ^ e \<le> m" "m < 2 ^ Suc e"
    using ilog2_bounds [OF assms(1)] by (simp_all add: e_def)
  have rb: "pow2 (int e) \<le> of_nat m" "of_nat m < pow2 (int e + 1)"
  proof -
    have "(of_nat (2 ^ e) :: rat) \<le> of_nat m" using b(1) by (simp only: of_nat_le_iff)
    then show "pow2 (int e) \<le> of_nat m" by (simp add: pow2_nat)
    have "(of_nat m :: rat) < of_nat (2 ^ Suc e)" using b(2) by (simp only: of_nat_less_iff)
    moreover have "pow2 (int e + 1) = 2 ^ Suc e"
      using pow2_nat [of "Suc e"] by (simp add: add.commute)
    ultimately show "of_nat m < pow2 (int e + 1)" by simp
  qed
  have ex: "exponent_of (of_nat m) = int e"
    by (rule exponent_of_eqI) (fact rb)+
  have e53: "e \<le> 53"
  proof (rule ccontr)
    assume "\<not> e \<le> 53"
    then have "54 \<le> e" by simp
    then have "(2::nat) ^ 54 \<le> 2 ^ e" by (rule power_increasing) simp
    with b(1) assms(2) show False by simp
  qed
  have v: "of_int (round_half_even (of_nat m / pow2 (int e - 52))) * pow2 (int e - 52) = (of_nat m :: rat)"
  proof (cases "e = 53")
    case True
    with b(1) assms(2) have m: "m = 2 ^ 53" by simp
    have "(of_nat m :: rat) / pow2 (int e - 52) = of_int (2 ^ 52)"
      by (simp add: m True pow2_def)
    then have "round_half_even (of_nat m / pow2 (int e - 52)) = 2 ^ 52"
      by (simp only: round_half_even_of_int)
    then show ?thesis by (simp add: m True pow2_def)
  next
    case False
    with e53 have le: "e \<le> 52" by simp
    have "int e - 52 + int (52 - e) = 0" using le by simp
    then have "pow2 (int e - 52) * pow2 (int (52 - e)) = pow2 0"
      by (simp only: pow2_add [symmetric])
    then have inv: "pow2 (int e - 52) * pow2 (int (52 - e)) = 1"
      by (simp add: pow2_def)
    then have d: "(of_nat m :: rat) / pow2 (int e - 52) = of_nat m * pow2 (int (52 - e))"
      using pow2_pos [of "int e - 52"] by (simp add: field_simps)
    also have "\<dots> = of_int (int (m * 2 ^ (52 - e)))"
      by (simp add: pow2_nat)
    finally have "round_half_even (of_nat m / pow2 (int e - 52)) = int (m * 2 ^ (52 - e))"
      by (simp only: round_half_even_of_int)
    then have "of_int (round_half_even (of_nat m / pow2 (int e - 52))) * pow2 (int e - 52)
        = of_nat m * (pow2 (int (52 - e)) * pow2 (int e - 52))"
      by (simp add: pow2_nat)
    with inv show ?thesis by (simp add: mult.commute)
  qed
  have small: "(of_nat m :: rat) < pow2 1024"
  proof -
    have "(of_nat m :: rat) \<le> of_nat (2 ^ 53)" using assms(2) by (simp only: of_nat_le_iff)
    also have "\<dots> < pow2 1024" by (simp add: pow2_def)
    finally show ?thesis .
  qed
  have mpos: "(0::rat) < of_nat m" using assms(1) by simp
  have mx: "max (int e) (- 1022) = int e" by simp
  show ?thesis
    using mpos small v by (simp add: round_double_def ex mx Let_def del: of_nat_power)
qed

lemma round_double_of_int:
  assumes "\<bar>n\<bar> \<le> 2 ^ 53"
  shows "round_double (of_int n) = Fin (of_int n)"
proof (cases "n = 0")
  case True
  then show ?thesis by (simp add: round_double_def)
next
  case False
  define m where "m = nat \<bar>n\<bar>"
  have m: "0 < m" "m \<le> 2 ^ 53" using False assms by (simp_all add: m_def nat_le_iff)
  have abs: "\<bar>of_int n :: rat\<bar> = of_nat m" by (simp add: m_def)
  from round_double_nat [OF m] have r: "round_double (of_nat m) = Fin (of_nat m)" .
  show ?thesis
  proof (cases "0 < n")
    case True
    then have "(of_int n :: rat) = of_nat m" by (simp add: m_def)
    with r show ?thesis by simp
  next
    case neg: False
    with False have lt: "n < 0" by simp
    then have eq: "(of_int n :: rat) = - of_nat m" by (simp add: m_def)
    have mpos: "(0::rat) < of_nat m" using m(1) by simp
    from r mpos show ?thesis
      unfolding eq round_double_def Let_def
      by (simp split: if_splits)
  qed
qed

section \<open>Evaluating the parser and the arithmetic\<close>

lemmas parse_defs =
  StringToNumber_def trim_def isStrWhiteSpaceChar_def nonDecimalRadix_def strDecimalLiteral_def
  unsignedDecimal_def isDecimalDigit_def digitValue_def exponentPart_def parseDigits_def
  pow10_def Let_def

lemma round_double_numeral:
  "numeral n \<le> (2::int) ^ 53 \<Longrightarrow> round_double (numeral n) = Fin (numeral n)"
  using round_double_of_int [of "numeral n"] by simp

lemma Number_abc: "StringToNumber ''abc'' = NaN"
  by (simp add: parse_defs)

lemma Number_empty: "StringToNumber [] = Fin 0"
  by (simp add: parse_defs)

lemma Number_0: "StringToNumber ''0'' = Fin 0"
  by (simp add: parse_defs round_double_def)

lemma Number_80: "StringToNumber ''80'' = Fin 80"
  by (simp add: parse_defs round_double_numeral)

lemma Number_100: "StringToNumber ''100'' = Fin 100"
  by (simp add: parse_defs round_double_numeral)

text \<open>Rounding a positive value whose binary exponent is known.\<close>

lemma round_double_at:
  assumes "pow2 e \<le> q" and "q < pow2 (e + 1)" and "- 1022 \<le> e"
  shows "round_double q =
    (if pow2 1024 \<le> of_int (round_half_even (q / pow2 (e - 52))) * pow2 (e - 52)
     then PosInfinity
     else Fin (of_int (round_half_even (q / pow2 (e - 52))) * pow2 (e - 52)))"
proof -
  have pos: "0 < q" using assms(1) pow2_pos [of e] by simp
  have "exponent_of q = e" using assms(1,2) by (rule exponent_of_eqI)
  moreover have "max e (- 1022) = e" using assms(3) by simp
  ultimately show ?thesis using pos by (simp add: round_double_def Let_def)
qed

lemmas round_eval = pow2_def round_half_even_def floor_rat_numeral Let_def

lemma round_double_tenth: "round_double (1 / 10) = Fin (3602879701896397 / 36028797018963968)"
  using round_double_at [of "- 4" "1 / 10"] by (simp add: round_eval)

lemma Number_tenth: "StringToNumber ''0.1'' = Fin (3602879701896397 / 36028797018963968)"
  by (simp add: parse_defs round_double_tenth)

text \<open>
  Six additions of the binary64 value of 0.1, starting from 0, and its product with 6.
  The third addition and the product round.
\<close>

lemma tenth_sum_1:
  "js_add (Fin 0) (Fin (3602879701896397 / 36028797018963968))
     = Fin (3602879701896397 / 36028797018963968)"
  using round_double_at [of "- 4" "3602879701896397 / 36028797018963968"]
  by (simp add: round_eval)

lemma tenth_sum_2:
  "js_add (Fin (3602879701896397 / 36028797018963968)) (Fin (3602879701896397 / 36028797018963968))
     = Fin (3602879701896397 / 18014398509481984)"
  using round_double_at [of "- 3" "3602879701896397 / 18014398509481984"]
  by (simp add: round_eval)

lemma tenth_sum_3:
  "js_add (Fin (3602879701896397 / 18014398509481984)) (Fin (3602879701896397 / 36028797018963968))
     = Fin (1351079888211149 / 4503599627370496)"
  using round_double_at [of "- 2" "10808639105689191 / 36028797018963968"]
  by (simp add: round_eval)

lemma tenth_sum_4:
  "js_add (Fin (1351079888211149 / 4503599627370496)) (Fin (3602879701896397 / 36028797018963968))
     = Fin (3602879701896397 / 9007199254740992)"
  using round_double_at [of "- 2" "14411518807585589 / 36028797018963968"]
  by (simp add: round_eval)

lemma tenth_sum_5:
  "js_add (Fin (3602879701896397 / 9007199254740992)) (Fin (3602879701896397 / 36028797018963968))
     = Fin (1 / 2)"
  using round_double_at [of "- 1" "18014398509481985 / 36028797018963968"]
  by (simp add: round_eval)

lemma tenth_sum_6:
  "js_add (Fin (1 / 2)) (Fin (3602879701896397 / 36028797018963968))
     = Fin (5404319552844595 / 9007199254740992)"
  using round_double_at [of "- 1" "21617278211378381 / 36028797018963968"]
  by (simp add: round_eval)

lemma tenth_times_6:
  "js_mul (Fin (3602879701896397 / 36028797018963968)) (Fin 6)
     = Fin (1351079888211149 / 2251799813685248)"
  using round_double_at [of "- 1" "10808639105689191 / 18014398509481984"]
  by (simp add: round_eval)

lemma js_add_zero: "js_add (Fin 0) (Fin 0) = Fin 0"
  by (simp add: round_double_def)

lemma funpow_6: "(f ^^ 6) x = f (f (f (f (f (f x)))))"
  by (simp add: numeral_eq_Suc funpow_swap1)

section \<open>Parallax ticks\<close>

lemma num_or_truthy: "truthy_num d \<Longrightarrow> truthy_num (num_or v d)"
  by (simp add: num_or_def)

lemma truthy_not_zero: "truthy_num v \<Longrightarrow> v \<noteq> Fin 0 \<and> v \<noteq> NaN"
  by (cases v) simp_all

lemma ticks_exact_general:
  assumes hx: "parallaxHorizontalSpeed cfg = Fin a" and hy: "parallaxVerticalSpeed cfg = Fin b"
    and ra: "\<And>k. k \<le> N \<Longrightarrow> round_double (of_nat k * a) = Fin (of_nat k * a)"
    and rb: "\<And>k. k \<le> N \<Longrightarrow> round_double (of_nat k * b) = Fin (of_nat k * b)"
  shows "(Scene_MenuBase_update cfg ^^ N) (TilingSprite (Fin 0) (Fin 0))
           = TilingSprite (Fin (of_nat N * a)) (Fin (of_nat N * b))"
  using ra rb
proof (induction N)
  case 0
  show ?case by simp
next
  case (Suc n)
  have prev: "(Scene_MenuBase_update cfg ^^ n) (TilingSprite (Fin 0) (Fin 0))
                = TilingSprite (Fin (of_nat n * a)) (Fin (of_nat n * b))"
    by (rule Suc.IH) (simp_all add: Suc.prems)
  have sa: "of_nat n * a + a = of_nat (Suc n) * a" by (simp add: algebra_simps)
  have sb: "of_nat n * b + b = of_nat (Suc n) * b" by (simp add: algebra_simps)
  have "js_add (Fin (of_nat n * a)) (Fin a) = Fin (of_nat (Suc n) * a)"
    using Suc.prems(1) [of "Suc n"] by (simp only: js_add.simps sa)
  moreover have "js_add (Fin (of_nat n * b)) (Fin b) = Fin (of_nat (Suc n) * b)"
    using Suc.prems(2) [of "Suc n"] by (simp only: js_add.simps sb)
  ultimately show ?case
    by (simp only: funpow.simps o_apply prev Scene_MenuBase_update.simps hx hy)
qed

lemma multiple_is_double:
  assumes "\<bar>v\<bar> * int N \<le> 2 ^ 53" "k \<le> N"
  shows "round_double (of_nat k * of_int v) = Fin (of_nat k * of_int v)"
proof -
  have "\<bar>int k * v\<bar> = \<bar>v\<bar> * int k" by (simp add: abs_mult mult.commute)
  also have "\<dots> \<le> \<bar>v\<bar> * int N" using assms(2) by (simp add: mult_left_mono)
  finally have "\<bar>int k * v\<bar> \<le> 2 ^ 53" using assms(1) by simp
  from round_double_of_int [OF this] show ?thesis by simp
qed

text \<open>
  C6 (as amended). Each tick adds the configured speeds to the origin in binary64
  arithmetic. For integer speeds \<open>vx\<close>, \<open>vy\<close> and a number of ticks \<open>N\<close> with
  \<open>|vx| * N\<close> and \<open>|vy| * N\<close> at most \<open>2 ^ 53\<close>, no addition rounds, and \<open>N\<close> ticks
  from origin (0, 0) give origin exactly \<open>(vx * N, vy * N)\<close>.
\<close>

theorem parallax_origin_after_ticks:
  assumes "parallaxHorizontalSpeed cfg = Fin (of_int vx)"
    and "parallaxVerticalSpeed cfg = Fin (of_int vy)"
    and "\<bar>vx\<bar> * int N \<le> 2 ^ 53"
    and "\<bar>vy\<bar> * int N \<le> 2 ^ 53"
  shows "(Scene_MenuBase_update cfg ^^ N) (TilingSprite (Fin 0) (Fin 0))
           = TilingSprite (Fin (of_int (vx * int N))) (Fin (of_int (vy * int N)))"
proof -
  have "(Scene_MenuBase_update cfg ^^ N) (TilingSprite (Fin 0) (Fin 0))
          = TilingSprite (Fin (of_nat N * of_int vx)) (Fin (of_nat N * of_int vy))"
    using assms(1,2)
  proof (rule ticks_exact_general)
    fix k assume "k \<le> N"
    then show "round_double (of_nat k * of_int vx) = Fin (of_nat k * of_int vx)"
      using assms(3) by (rule multiple_is_double [rotated])
  next
    fix k assume "k \<le> N"
    then show "round_double (of_nat k * of_int vy) = Fin (of_nat k * of_int vy)"
      using assms(4) by (rule multiple_is_double [rotated])
  qed
  then show ?thesis by (simp add: mult.commute)
qed

lemma default_speeds:
  "parallaxHorizontalSpeed (load_config no_parameters) = Fin 1"
  "parallaxVerticalSpeed (load_config no_parameters) = Fin 0"
  by (simp_all add: load_config_def no_parameters_def num_or_def)

theorem parallax_origin_after_ticks_witness:
  "parallaxHorizontalSpeed (load_config no_parameters) = Fin (of_int 1)
   \<and> parallaxVerticalSpeed (load_config no_parameters) = Fin (of_int 0)
   \<and> \<bar>1\<bar> * int 3 \<le> 2 ^ 53 \<and> \<bar>0\<bar> * int 3 \<le> 2 ^ 53
   \<and> (Scene_MenuBase_update (load_config no_parameters) ^^ 3) (TilingSprite (Fin 0) (Fin 0))
       = TilingSprite (Fin 3) (Fin 0)"
  using parallax_origin_after_ticks [of "load_config no_parameters" 1 0 3]
  by (simp add: default_speeds)

text \<open>
  C6 as stated fails for a speed that is not an integer. With the horizontal speed
  configured as \<^verbatim>\<open>0.1\<close>, six ticks leave \<^verbatim>\<open>origin.x\<close> at 0.6 (the binary64 value
  nearest to it), which is neither the product \<^verbatim>\<open>0.1 * 6\<close> as JavaScript computes it
  (0.6000000000000001) nor the exact product of the speed and 6.
\<close>

theorem parallax_origin_counterexample:
  "parallaxHorizontalSpeed
     (load_config (no_parameters(''parallaxHorizontalSpeed'' := JString ''0.1'')))
     = Fin (3602879701896397 / 36028797018963968)
   \<and> (Scene_MenuBase_update
        (load_config (no_parameters(''parallaxHorizontalSpeed'' := JString ''0.1''))) ^^ 6)
       (TilingSprite (Fin 0) (Fin 0))
     = TilingSprite (Fin (5404319552844595 / 9007199254740992)) (Fin 0)
   \<and> js_mul (parallaxHorizontalSpeed
        (load_config (no_parameters(''parallaxHorizontalSpeed'' := JString ''0.1'')))) (Fin 6)
     = Fin (1351079888211149 / 2251799813685248)
   \<and> Fin (5404319552844595 / 9007199254740992)
     \<noteq> js_mul (parallaxHorizontalSpeed
        (load_config (no_parameters(''parallaxHorizontalSpeed'' := JString ''0.1'')))) (Fin 6)
   \<and> (5404319552844595 / 9007199254740992 :: rat) \<noteq> 3602879701896397 / 36028797018963968 * 6"
proof -
  have vx: "parallaxHorizontalSpeed
      (load_config (no_parameters(''parallaxHorizontalSpeed'' := JString ''0.1'')))
      = Fin (3602879701896397 / 36028797018963968)"
    by (simp add: load_config_def no_parameters_def num_or_def Number_tenth)
  have vy: "parallaxVerticalSpeed
      (load_config (no_parameters(''parallaxHorizontalSpeed'' := JString ''0.1''))) = Fin 0"
    by (simp add: load_config_def no_parameters_def num_or_def)
  have ticks: "(Scene_MenuBase_update
        (load_config (no_parameters(''parallaxHorizontalSpeed'' := JString ''0.1''))) ^^ 6)
       (TilingSprite (Fin 0) (Fin 0))
     = TilingSprite (Fin (5404319552844595 / 9007199254740992)) (Fin 0)"
    by (simp only: funpow_6 Scene_MenuBase_update.simps vx vy js_add_zero
        tenth_sum_1 tenth_sum_2 tenth_sum_3 tenth_sum_4 tenth_sum_5 tenth_sum_6)
  have prod: "js_mul (Fin (3602879701896397 / 36028797018963968)) (Fin 6)
      = Fin (1351079888211149 / 2251799813685248)"
    by (rule tenth_times_6)
  show ?thesis
    unfolding vx prod using ticks unfolding vx by simp
qed

section \<open>Configuration defaults\<close>

text \<open>
  C10. A configured \<^verbatim>\<open>0\<close> is falsy after \<^verbatim>\<open>Number\<close>, so \<^verbatim>\<open>||\<close> replaces it by
  the default: horizontal speed 1, volume 80, pitch 100, whatever the other parameters
  are. The vertical speed, whose default is 0, is the only one of the four that can be
  zero: the other three are never zero (nor \<^verbatim>\<open>NaN\<close>) for any parameter object.
\<close>

theorem zero_parameter_takes_default:
  "parallaxHorizontalSpeed (load_config (p(''parallaxHorizontalSpeed'' := JString ''0''))) = Fin 1
   \<and> musicVolume (load_config (p(''musicVolume'' := JString ''0''))) = Fin 80
   \<and> musicPitch (load_config (p(''musicPitch'' := JString ''0''))) = Fin 100
   \<and> parallaxVerticalSpeed (load_config (p(''parallaxVerticalSpeed'' := JString ''0''))) = Fin 0
   \<and> parallaxHorizontalSpeed (load_config p) \<noteq> Fin 0
   \<and> musicVolume (load_config p) \<noteq> Fin 0
   \<and> musicPitch (load_config p) \<noteq> Fin 0"
proof -
  have zero: "num_or (StringToNumber ''0'') d = d" for d
    by (simp add: Number_0 num_or_def)
  have nz: "num_or v d \<noteq> Fin 0" if "truthy_num d" for v d
    using truthy_not_zero [OF num_or_truthy [OF that, of v]] by simp
  show ?thesis
    by (simp add: load_config_def zero nz)
qed

text \<open>
  C7, at the input where the code departs from it: the horizontal speed \<^verbatim>\<open>0\<close> is a
  valid number (\<^verbatim>\<open>Number\<close> gives 0, not \<^verbatim>\<open>NaN\<close>), and the effective speed is the
  default 1 all the same. The non-numeric \<^verbatim>\<open>abc\<close> and an unset parameter give the
  defaults, as the claim says.
\<close>

theorem zero_speed_not_used_as_given:
  "Number (JString ''0'') = Fin 0
   \<and> parallaxHorizontalSpeed
       (load_config (no_parameters(''parallaxHorizontalSpeed'' := JString ''0''))) = Fin 1
   \<and> parallaxHorizontalSpeed
       (load_config (no_parameters(''parallaxHorizontalSpeed'' := JString ''abc''))) = Fin 1
   \<and> parallaxHorizontalSpeed (load_config no_parameters) = Fin 1
   \<and> parallaxVerticalSpeed (load_config no_parameters) = Fin 0"
  by (simp add: load_config_def no_parameters_def num_or_def Number_0 Number_abc)

section \<open>Menu sessions\<close>

lemma run_append: "run cfg (xs @ ys) w = run cfg ys (run cfg xs w)"
  by (induction xs arbitrary: w) simp_all

lemma menu_family_not_map: "instanceof_Scene_MenuBase s \<Longrightarrow> \<not> instanceof_Scene_Map s"
  by (cases s) simp_all

lemma run_inMenu_active:
  "list_all inMenu mids \<Longrightarrow> menuMusicActive w \<Longrightarrow> run cfg mids w = w"
proof (induction mids)
  case Nil
  show ?case by simp
next
  case (Cons e es)
  from Cons.prems(1) have e: "inMenu e" and es: "list_all inMenu es" by simp_all
  have "step cfg e w = w"
  proof (cases e)
    case (MapTerminate s b)
    with e show ?thesis by simp
  next
    case MenuStart
    with Cons.prems(2) show ?thesis by (simp add: Scene_Menu_start_def)
  next
    case (MenuBaseTerminate s)
    with e have "\<not> instanceof_Scene_Map s" by (simp add: menu_family_not_map)
    with MenuBaseTerminate show ?thesis by (simp add: Scene_MenuBase_terminate_def)
  qed
  with Cons.IH [OF es Cons.prems(2)] show ?case by simp
qed

lemma run_inMenu:
  assumes "list_all inMenu mids" and "\<not> menuMusicActive w"
  shows "run cfg mids w =
    (if menuMusic cfg \<noteq> [] \<and> MenuStart \<in> set mids
     then w\<lparr> audioCalls := audioCalls w @ [StopBgm, PlayBgm (menuBgm cfg)],
             menuMusicActive := True \<rparr>
     else w)"
  using assms
proof (induction mids)
  case Nil
  show ?case by simp
next
  case (Cons e es)
  from Cons.prems(1) have e: "inMenu e" and es: "list_all inMenu es" by simp_all
  show ?case
  proof (cases e)
    case (MapTerminate s b)
    with e show ?thesis by simp
  next
    case MenuStart
    show ?thesis
    proof (cases "menuMusic cfg = []")
      case True
      then have "step cfg e w = w" by (simp add: MenuStart Scene_Menu_start_def)
      with Cons.IH [OF es Cons.prems(2)] True show ?thesis by simp
    next
      case False
      let ?w = "w\<lparr> audioCalls := audioCalls w @ [StopBgm, PlayBgm (menuBgm cfg)],
                     menuMusicActive := True \<rparr>"
      have st: "step cfg e w = ?w"
        using False Cons.prems(2) by (simp add: MenuStart Scene_Menu_start_def)
      have "run cfg es ?w = ?w" by (rule run_inMenu_active [OF es]) simp
      with st False MenuStart show ?thesis by simp
    qed
  next
    case (MenuBaseTerminate s)
    with e have "\<not> instanceof_Scene_Map s" by (simp add: menu_family_not_map)
    then have "step cfg e w = w" by (simp add: MenuBaseTerminate Scene_MenuBase_terminate_def)
    with Cons.IH [OF es Cons.prems(2)] MenuBaseTerminate show ?thesis by simp
  qed
qed

lemma session_audioCalls:
  assumes "instanceof_Scene_MenuBase nextScene" and "list_all inMenu mids"
  shows "audioCalls (run cfg (session nextScene saved mids) w) =
    audioCalls w @ [SaveBgm] @
      (if menuMusicActive w then StopBgm # replay saved
       else if menuMusic cfg \<noteq> [] \<and> MenuStart \<in> set mids
         then [StopBgm, PlayBgm (menuBgm cfg)] @ StopBgm # replay saved
         else [])"
proof -
  let ?c = "w\<lparr> audioCalls := audioCalls w @ [SaveBgm], currentMapBgm := saved \<rparr>"
  have cap: "Scene_Map_terminate nextScene saved w = ?c"
    using assms(1) by (simp add: Scene_Map_terminate_def)
  have split: "run cfg (session nextScene saved mids) w
      = Scene_MenuBase_terminate Scene_Map (run cfg mids ?c)"
    by (simp add: session_def run_append cap)
  show ?thesis
  proof (cases "menuMusicActive w")
    case True
    then have "run cfg mids ?c = ?c" by (intro run_inMenu_active [OF assms(2)]) simp
    with True show ?thesis by (simp add: split Scene_MenuBase_terminate_def)
  next
    case False
    then have "\<not> menuMusicActive ?c" by simp
    from run_inMenu [OF assms(2) this, of cfg] False show ?thesis
      by (simp add: split Scene_MenuBase_terminate_def)
  qed
qed

lemma theme1_config:
  "menuBgm (load_config (no_parameters(''menuMusic'' := JString ''Theme1'',
      ''musicVolume'' := JString ''80'', ''musicPitch'' := JString ''100'')))
   = \<lparr> name = ''Theme1'', volume = Fin 80, pitch = Fin 100, pan = Fin 0 \<rparr>"
  "menuMusic (load_config (no_parameters(''menuMusic'' := JString ''Theme1'',
      ''musicVolume'' := JString ''80'', ''musicPitch'' := JString ''100''))) = ''Theme1''"
  by (simp_all add: menuBgm_def load_config_def no_parameters_def num_or_def Number_80 Number_100)

text \<open>
  C1. With menu track \<^verbatim>\<open>Theme1\<close>, volume 80 and pitch 100 configured, and
  \<^verbatim>\<open>Field\<close> playing on the map at 12.5 seconds: leaving the map for the menu captures
  the track (a read of the device), and the menu's start calls \<^verbatim>\<open>stopBgm\<close>, then
  \<^verbatim>\<open>playBgm\<close> with Theme1, 80, 100 and pan 0; terminating the menu in favour of the
  map then calls \<^verbatim>\<open>stopBgm\<close> and \<^verbatim>\<open>replayBgm\<close> with the captured object. These are
  all the calls made.
\<close>

theorem theme1_field_scenario:
  "audioCalls
     (Scene_Menu_start
        (load_config (no_parameters(''menuMusic'' := JString ''Theme1'',
           ''musicVolume'' := JString ''80'', ''musicPitch'' := JString ''100'')))
        (Scene_Map_terminate Scene_Menu
           (Some \<lparr> name = ''Field'', volume = v, pitch = p, pan = q, pos = Fin (25 / 2) \<rparr>)
           initial_world))
   = [SaveBgm, StopBgm,
      PlayBgm \<lparr> name = ''Theme1'', volume = Fin 80, pitch = Fin 100, pan = Fin 0 \<rparr>]
   \<and> audioCalls
     (Scene_MenuBase_terminate Scene_Map
        (Scene_Menu_start
           (load_config (no_parameters(''menuMusic'' := JString ''Theme1'',
              ''musicVolume'' := JString ''80'', ''musicPitch'' := JString ''100'')))
           (Scene_Map_terminate Scene_Menu
              (Some \<lparr> name = ''Field'', volume = v, pitch = p, pan = q, pos = Fin (25 / 2) \<rparr>)
              initial_world)))
   = [SaveBgm, StopBgm,
      PlayBgm \<lparr> name = ''Theme1'', volume = Fin 80, pitch = Fin 100, pan = Fin 0 \<rparr>,
      StopBgm,
      ReplayBgm \<lparr> name = ''Field'', volume = v, pitch = p, pan = q, pos = Fin (25 / 2) \<rparr>]"
  by (simp add: Scene_MenuBase_terminate_def Scene_Menu_start_def Scene_Map_terminate_def
      initial_world_def theme1_config)

text \<open>
  C2 as stated fails: after the session of C1 has ended on the map, the saved snapshot is
  still the captured \<^verbatim>\<open>Field\<close> object. No line of the plugin assigns \<^verbatim>\<open>null\<close> to
  \<^verbatim>\<open>_currentMapBgm\<close> after its declaration.
\<close>

theorem snapshot_kept_counterexample:
  "currentMapBgm
     (Scene_MenuBase_terminate Scene_Map
        (Scene_Menu_start (load_config (no_parameters(''menuMusic'' := JString ''Theme1'')))
           (Scene_Map_terminate Scene_Menu (Some fieldBgm) initial_world)))
   = Some fieldBgm"
  by (simp add: Scene_MenuBase_terminate_def Scene_Menu_start_def Scene_Map_terminate_def
      initial_world_def load_config_def no_parameters_def)

text \<open>
  C2 (as amended). After a menu scene has terminated in favour of the map, the menu
  track is inactive, whatever the state was before; the saved snapshot is left as it was.
  It is replaced only by the next capture, when the map terminates in favour of a menu
  scene.
\<close>

theorem exit_clears_active_keeps_snapshot:
  "menuMusicActive (Scene_MenuBase_terminate Scene_Map w) = False
   \<and> currentMapBgm (Scene_MenuBase_terminate nextScene w) = currentMapBgm w
   \<and> currentMapBgm (Scene_Menu_start cfg w) = currentMapBgm w
   \<and> currentMapBgm (Scene_Map_terminate nextScene saved w)
       = (if instanceof_Scene_MenuBase nextScene then saved else currentMapBgm w)"
  by (simp add: Scene_MenuBase_terminate_def Scene_Menu_start_def Scene_Map_terminate_def)

text \<open>
  C3. With a menu track configured and not yet active, the menu's start calls
  \<^verbatim>\<open>stopBgm\<close> and \<^verbatim>\<open>playBgm\<close> once; a second start right after it changes neither
  the calls made nor the plugin's variables.
\<close>

theorem menu_start_twice:
  assumes "menuMusic cfg \<noteq> []" and "\<not> menuMusicActive w"
  shows "audioCalls (Scene_Menu_start cfg w) = audioCalls w @ [StopBgm, PlayBgm (menuBgm cfg)]
    \<and> Scene_Menu_start cfg (Scene_Menu_start cfg w) = Scene_Menu_start cfg w"
  using assms by (simp add: Scene_Menu_start_def)

theorem menu_start_twice_witness:
  "menuMusic (load_config (no_parameters(''menuMusic'' := JString ''Theme1''))) \<noteq> []
   \<and> \<not> menuMusicActive initial_world
   \<and> audioCalls (Scene_Menu_start
         (load_config (no_parameters(''menuMusic'' := JString ''Theme1''))) initial_world)
       = [StopBgm, PlayBgm \<lparr> name = ''Theme1'', volume = Fin 80, pitch = Fin 100, pan = Fin 0 \<rparr>]
   \<and> Scene_Menu_start (load_config (no_parameters(''menuMusic'' := JString ''Theme1'')))
        (Scene_Menu_start
           (load_config (no_parameters(''menuMusic'' := JString ''Theme1''))) initial_world)
       = Scene_Menu_start
           (load_config (no_parameters(''menuMusic'' := JString ''Theme1''))) initial_world"
proof -
  have m: "menuMusic (load_config (no_parameters(''menuMusic'' := JString ''Theme1''))) \<noteq> []"
    by (simp add: load_config_def no_parameters_def)
  have a: "\<not> menuMusicActive initial_world"
    by (simp add: initial_world_def)
  have b: "menuBgm (load_config (no_parameters(''menuMusic'' := JString ''Theme1'')))
      = \<lparr> name = ''Theme1'', volume = Fin 80, pitch = Fin 100, pan = Fin 0 \<rparr>"
    by (simp add: menuBgm_def load_config_def no_parameters_def num_or_def)
  have c: "audioCalls initial_world = []"
    by (simp add: initial_world_def)
  from menu_start_twice [OF m a] m a show ?thesis
    by (simp only: b c append_Nil simp_thms)
qed

text \<open>
  C4. In a menu session whose capture returned no track (\<^verbatim>\<open>null\<close>), the plugin never
  calls \<^verbatim>\<open>replayBgm\<close>. From any state, the calls of the whole session are the capture
  alone, or the capture and the closing \<^verbatim>\<open>stopBgm\<close>, or the capture, the start of the
  menu track and the closing \<^verbatim>\<open>stopBgm\<close>: where the device is changed at all, the
  last call stops it.
\<close>

theorem silent_session_no_replay:
  assumes "instanceof_Scene_MenuBase nextScene" and "list_all inMenu mids"
  shows "audioCalls (run cfg (session nextScene None mids) w)
    \<in> {audioCalls w @ [SaveBgm],
       audioCalls w @ [SaveBgm, StopBgm],
       audioCalls w @ [SaveBgm, StopBgm, PlayBgm (menuBgm cfg), StopBgm]}"
  by (simp add: session_audioCalls [OF assms])

theorem silent_session_no_replay_witness:
  "instanceof_Scene_MenuBase Scene_Menu \<and> list_all inMenu [MenuStart]
   \<and> audioCalls (run (load_config (no_parameters(''menuMusic'' := JString ''Theme1'')))
        (session Scene_Menu None [MenuStart]) initial_world)
      \<in> {[SaveBgm], [SaveBgm, StopBgm],
         [SaveBgm, StopBgm,
          PlayBgm \<lparr> name = ''Theme1'', volume = Fin 80, pitch = Fin 100, pan = Fin 0 \<rparr>,
          StopBgm]}"
  using silent_session_no_replay [of Scene_Menu "[MenuStart]"
      "load_config (no_parameters(''menuMusic'' := JString ''Theme1''))" initial_world]
  by (simp add: initial_world_def menuBgm_def load_config_def no_parameters_def num_or_def)

section \<open>Invariants of the menu music state\<close>

lemma run_snoc: "run cfg (evs @ [e]) w = step cfg e (run cfg evs w)"
  by (simp add: run_append)

text \<open>
  C5. In every state reached from the initial one by any sequence of the three hooks,
  if the menu track is active then a menu track is configured, some earlier start of the
  menu issued \<^verbatim>\<open>stopBgm\<close> and \<^verbatim>\<open>playBgm\<close> of the configured track, and no menu scene
  has terminated in favour of the map since.
\<close>

theorem active_only_after_start:
  assumes "menuMusicActive (run cfg evs initial_world)"
  shows "\<exists>pre post. evs = pre @ MenuStart # post
    \<and> menuMusic cfg \<noteq> []
    \<and> audioCalls (run cfg (pre @ [MenuStart]) initial_world)
        = audioCalls (run cfg pre initial_world) @ [StopBgm, PlayBgm (menuBgm cfg)]
    \<and> MenuBaseTerminate Scene_Map \<notin> set post"
  using assms
proof (induction evs rule: rev_induct)
  case Nil
  then show ?case by (simp add: initial_world_def)
next
  case (snoc e evs)
  let ?w = "run cfg evs initial_world"
  have after: "menuMusicActive (step cfg e ?w)"
    using snoc.prems by (simp only: run_snoc)
  have extend: ?case if act: "menuMusicActive ?w" and ne: "e \<noteq> MenuBaseTerminate Scene_Map"
  proof -
    from snoc.IH [OF act] obtain pre post where
      "evs = pre @ MenuStart # post" "menuMusic cfg \<noteq> []"
      "audioCalls (run cfg (pre @ [MenuStart]) initial_world)
        = audioCalls (run cfg pre initial_world) @ [StopBgm, PlayBgm (menuBgm cfg)]"
      "MenuBaseTerminate Scene_Map \<notin> set post"
      by blast
    with ne have "evs @ [e] = pre @ MenuStart # (post @ [e])
      \<and> menuMusic cfg \<noteq> []
      \<and> audioCalls (run cfg (pre @ [MenuStart]) initial_world)
          = audioCalls (run cfg pre initial_world) @ [StopBgm, PlayBgm (menuBgm cfg)]
      \<and> MenuBaseTerminate Scene_Map \<notin> set (post @ [e])"
      by simp
    then show ?thesis by blast
  qed
  show ?case
  proof (cases e)
    case (MapTerminate s b)
    with after have "menuMusicActive ?w"
      by (simp add: Scene_Map_terminate_def split: if_splits)
    then show ?thesis by (rule extend) (simp add: MapTerminate)
  next
    case MenuStart
    show ?thesis
    proof (cases "menuMusicActive ?w")
      case True
      then show ?thesis by (rule extend) (simp add: MenuStart)
    next
      case False
      with after MenuStart have cfgd: "menuMusic cfg \<noteq> []"
        by (simp add: Scene_Menu_start_def split: if_splits)
      with False have "audioCalls (run cfg (evs @ [MenuStart]) initial_world)
          = audioCalls ?w @ [StopBgm, PlayBgm (menuBgm cfg)]"
        by (simp add: run_snoc Scene_Menu_start_def)
      with cfgd MenuStart have "evs @ [e] = evs @ MenuStart # []
        \<and> menuMusic cfg \<noteq> []
        \<and> audioCalls (run cfg (evs @ [MenuStart]) initial_world)
            = audioCalls ?w @ [StopBgm, PlayBgm (menuBgm cfg)]
        \<and> MenuBaseTerminate Scene_Map \<notin> set []"
        by simp
      then show ?thesis by blast
    qed
  next
    case (MenuBaseTerminate s)
    with after have "menuMusicActive ?w \<and> \<not> instanceof_Scene_Map s"
      by (simp add: Scene_MenuBase_terminate_def split: if_splits)
    then have act: "menuMusicActive ?w" and "s \<noteq> Scene_Map" by auto
    then show ?thesis by (intro extend) (simp_all add: MenuBaseTerminate)
  qed
qed

theorem active_only_after_start_witness:
  "menuMusicActive (run (load_config (no_parameters(''menuMusic'' := JString ''Theme1'')))
       [MapTerminate Scene_Menu (Some fieldBgm), MenuStart, MenuBaseTerminate Scene_MenuBase]
       initial_world)
   \<and> (\<exists>pre post.
        [MapTerminate Scene_Menu (Some fieldBgm), MenuStart, MenuBaseTerminate Scene_MenuBase]
          = pre @ MenuStart # post
        \<and> menuMusic (load_config (no_parameters(''menuMusic'' := JString ''Theme1''))) \<noteq> []
        \<and> audioCalls (run (load_config (no_parameters(''menuMusic'' := JString ''Theme1'')))
              (pre @ [MenuStart]) initial_world)
            = audioCalls (run (load_config (no_parameters(''menuMusic'' := JString ''Theme1'')))
                pre initial_world)
              @ [StopBgm, PlayBgm (menuBgm
                  (load_config (no_parameters(''menuMusic'' := JString ''Theme1''))))]
        \<and> MenuBaseTerminate Scene_Map \<notin> set post)"
proof -
  have act: "menuMusicActive
      (run (load_config (no_parameters(''menuMusic'' := JString ''Theme1'')))
        [MapTerminate Scene_Menu (Some fieldBgm), MenuStart, MenuBaseTerminate Scene_MenuBase]
        initial_world)"
    by (simp add: Scene_MenuBase_terminate_def Scene_Menu_start_def Scene_Map_terminate_def
        initial_world_def load_config_def no_parameters_def)
  from active_only_after_start [OF act] act show ?thesis by blast
qed

lemma run_no_track:
  assumes "menuMusic cfg = []" and "\<not> menuMusicActive w"
  shows "\<not> menuMusicActive (run cfg evs w)
    \<and> filter changesDevice (audioCalls (run cfg evs w)) = filter changesDevice (audioCalls w)"
  using assms(2)
proof (induction evs arbitrary: w)
  case Nil
  then show ?case by simp
next
  case (Cons e es)
  have st: "\<not> menuMusicActive (step cfg e w)
    \<and> filter changesDevice (audioCalls (step cfg e w)) = filter changesDevice (audioCalls w)"
    using Cons.prems assms(1)
    by (cases e)
      (simp_all add: Scene_Map_terminate_def Scene_Menu_start_def Scene_MenuBase_terminate_def)
  then have "\<not> menuMusicActive (step cfg e w)" by simp
  from Cons.IH [OF this] st show ?case by simp
qed

text \<open>
  C8. With the menu track identifier empty, no sequence of the three hooks from the
  initial state calls \<^verbatim>\<open>stopBgm\<close>, \<^verbatim>\<open>playBgm\<close> or \<^verbatim>\<open>replayBgm\<close>: the only calls
  made are captures, which read the device. Entering and leaving a menu session is one
  such sequence.
\<close>

theorem no_track_no_device_change:
  assumes "menuMusic cfg = []"
  shows "filter changesDevice (audioCalls (run cfg evs initial_world)) = []"
proof -
  have "\<not> menuMusicActive initial_world" by (simp add: initial_world_def)
  from run_no_track [OF assms this, of evs] show ?thesis
    by (simp add: initial_world_def)
qed

theorem no_track_no_device_change_witness:
  "menuMusic (load_config (no_parameters(''menuMusic'' := JString []))) = []
   \<and> audioCalls (run (load_config (no_parameters(''menuMusic'' := JString [])))
        (session Scene_Menu (Some fieldBgm) [MenuStart]) initial_world) = [SaveBgm]
   \<and> filter changesDevice
       (audioCalls (run (load_config (no_parameters(''menuMusic'' := JString [])))
          (session Scene_Menu (Some fieldBgm) [MenuStart]) initial_world)) = []"
proof -
  have m: "menuMusic (load_config (no_parameters(''menuMusic'' := JString []))) = []"
    by (simp add: load_config_def)
  have "audioCalls (run (load_config (no_parameters(''menuMusic'' := JString [])))
        (session Scene_Menu (Some fieldBgm) [MenuStart]) initial_world) = [SaveBgm]"
    by (simp add: session_def Scene_MenuBase_terminate_def Scene_Menu_start_def
        Scene_Map_terminate_def initial_world_def m)
  with m no_track_no_device_change [OF m, of "session Scene_Menu (Some fieldBgm) [MenuStart]"]
  show ?thesis by simp
qed

text \<open>
  C9. In every menu session, from any state, the calls made are in this order: first the
  capture; then, if a menu track is configured, was not active, and the main menu
  starts, \<^verbatim>\<open>stopBgm\<close> and \<^verbatim>\<open>playBgm\<close> of the menu track, once; and last, if the
  menu track is active by then, \<^verbatim>\<open>stopBgm\<close> and the replay of the captured track, made
  by the terminating menu scene before it hands over to the map. The hooks run one after
  the other, so the calls of one are complete before the next begins.
\<close>

theorem session_call_order:
  assumes "instanceof_Scene_MenuBase nextScene" and "list_all inMenu mids"
  shows "audioCalls (run cfg (session nextScene saved mids) w) =
    audioCalls w @ [SaveBgm] @
      (if menuMusicActive w then StopBgm # replay saved
       else if menuMusic cfg \<noteq> [] \<and> MenuStart \<in> set mids
         then [StopBgm, PlayBgm (menuBgm cfg)] @ StopBgm # replay saved
         else [])"
  using assms by (rule session_audioCalls)

theorem session_call_order_witness:
  "instanceof_Scene_MenuBase Scene_Menu
   \<and> list_all inMenu [MenuStart, MenuBaseTerminate Scene_MenuBase, MenuBaseTerminate Scene_Menu,
        MenuStart]
   \<and> audioCalls (run (load_config (no_parameters(''menuMusic'' := JString ''Theme1'')))
        (session Scene_Menu (Some fieldBgm)
           [MenuStart, MenuBaseTerminate Scene_MenuBase, MenuBaseTerminate Scene_Menu, MenuStart])
        initial_world)
      = [SaveBgm, StopBgm,
         PlayBgm \<lparr> name = ''Theme1'', volume = Fin 80, pitch = Fin 100, pan = Fin 0 \<rparr>,
         StopBgm, ReplayBgm fieldBgm]"
  using session_call_order [of Scene_Menu
      "[MenuStart, MenuBaseTerminate Scene_MenuBase, MenuBaseTerminate Scene_Menu, MenuStart]"
      "load_config (no_parameters(''menuMusic'' := JString ''Theme1''))" "Some fieldBgm"
      initial_world]
  by (simp add: initial_world_def menuBgm_def load_config_def no_parameters_def num_or_def)

end
